theory Spec2Isabelle
  imports Complex_Main
begin

section \<open>Numbers, typed arrays and errors\<close>

text \<open>
  The pixel code of picfixer (ColorUtils, DitheringEngine, EffectsEngine and the dither
  stage of ImageProcessor.process) as HOL functions.

  A JavaScript number is modelled as an exact \<open>real\<close>: the rounding of IEEE doubles and of
  \<open>Float32Array\<close> stores is not modelled, so every statement below is about the arithmetic
  the source writes, carried out exactly. The concrete inputs evaluated below only meet
  values that doubles and floats represent exactly, or comparisons with a wide margin.

  A \<open>Uint8ClampedArray\<close> holds integers 0..255; a store of a number clamps it and rounds
  it, ties to even (\<open>toUint8Clamp\<close>). \<open>ImageData.data\<close> holds four such bytes per pixel,
  \<open>data[4*k .. 4*k+3]\<close>; the model keeps them as one \<open>pixel\<close> per index \<open>k\<close>, so the
  source's \<open>idx = (y * width + x) * 4\<close> is the pixel index \<open>y * width + x\<close>. The browser's
  \<open>ImageData\<close> guarantees \<open>data.length = 4 * width * height\<close>; the theorems that read a
  pixel by its index assume it (\<open>length (data img) = width img * height img\<close>).

  A palette entry is the array \<open>[r, g, b]\<close> that \<open>ColorUtils.hexToRgb\<close> returns: three
  integers.
\<close>

type_synonym rgb = "int \<times> int \<times> int"
type_synonym pixel = "int \<times> int \<times> int \<times> int"
type_synonym fbuffer = "(real \<times> real \<times> real) list"

record imageData =
  width :: nat
  height :: nat
  data :: "pixel list"

text \<open>The only exception the modelled code can raise: destructuring or indexing \<open>undefined\<close>.\<close>

datatype js_error = TypeError

text \<open>\<open>Math.round\<close>: the nearest integer, a tie going up.\<close>

definition js_round :: "real \<Rightarrow> int" where
  "js_round x = \<lfloor>x + 1 / 2\<rfloor>"

text \<open>The store into a \<open>Uint8ClampedArray\<close> (ECMAScript ToUint8Clamp).\<close>

definition toUint8Clamp :: "real \<Rightarrow> int" where
  "toUint8Clamp x =
     (if x \<le> 0 then 0
      else if 255 \<le> x then 255
      else (let f = \<lfloor>x\<rfloor> in
            if of_int f + 1 / 2 < x then f + 1
            else if x < of_int f + 1 / 2 then f
            else if even f then f else f + 1))"

text \<open>ToInt32, applied by \<open>>>\<close> to its left operand.\<close>

definition to_int32 :: "int \<Rightarrow> int" where
  "to_int32 v = (v + 2 ^ 31) mod 2 ^ 32 - 2 ^ 31"

definition rgb_of :: "pixel \<Rightarrow> rgb" where
  "rgb_of p = (case p of (r, g, b, a) \<Rightarrow> (r, g, b))"

text \<open>\<open>data[idx] = nr; data[idx + 1] = ng; data[idx + 2] = nb\<close>: the alpha byte stays.\<close>

definition store_rgb :: "pixel \<Rightarrow> real \<Rightarrow> real \<Rightarrow> real \<Rightarrow> pixel" where
  "store_rgb p nr ng nb =
     (case p of (r, g, b, a) \<Rightarrow> (toUint8Clamp nr, toUint8Clamp ng, toUint8Clamp nb, a))"

text \<open>\<open>xs[i]\<close> of a JavaScript array: \<open>None\<close> is \<open>undefined\<close>.\<close>

definition js_index :: "'a list \<Rightarrow> nat \<Rightarrow> 'a option" where
  "js_index xs i = (if i < length xs then Some (xs ! i) else None)"

section \<open>ColorUtils\<close>

definition getLuminance :: "int \<Rightarrow> int \<Rightarrow> int \<Rightarrow> int" where
  "getLuminance r g b = to_int32 (r * 77 + g * 150 + b * 29) div 256"

definition colorDistanceSq :: "real \<Rightarrow> real \<Rightarrow> real \<Rightarrow> real \<Rightarrow> real \<Rightarrow> real \<Rightarrow> real" where
  "colorDistanceSq r1 g1 b1 r2 g2 b2 =
     (let dr = r1 - r2; dg = g1 - g2; db = b1 - b2
      in dr * dr * 0.3 + dg * dg * 0.59 + db * db * 0.11)"

text \<open>
  The loop of \<open>findClosestColor\<close>. \<open>minDist\<close> starts at \<open>Infinity\<close> (\<open>None\<close>), \<open>closest\<close> at
  \<open>palette[0]\<close>, which is \<open>undefined\<close> (\<open>None\<close>) for an empty palette.
\<close>

fun findClosest_loop ::
  "real \<Rightarrow> real \<Rightarrow> real \<Rightarrow> rgb list \<Rightarrow> real option \<times> rgb option \<Rightarrow> real option \<times> rgb option" where
  "findClosest_loop r g b [] acc = acc"
| "findClosest_loop r g b (p # ps) (minDist, closest) =
     (case p of (pr, pg, pb) \<Rightarrow>
        (let dist = colorDistanceSq r g b (of_int pr) (of_int pg) (of_int pb)
         in if (case minDist of None \<Rightarrow> True | Some m \<Rightarrow> dist < m)
            then findClosest_loop r g b ps (Some dist, Some p)
            else findClosest_loop r g b ps (minDist, closest)))"

definition findClosestColor :: "real \<Rightarrow> real \<Rightarrow> real \<Rightarrow> rgb list \<Rightarrow> rgb option" where
  "findClosestColor r g b palette =
     snd (findClosest_loop r g b palette (None, js_index palette 0))"

text \<open>\<open>Array.prototype.sort\<close> is stable, as \<open>sort_key\<close> is.\<close>

definition sortPaletteByLuminance :: "rgb list \<Rightarrow> rgb list" where
  "sortPaletteByLuminance palette = sort_key (\<lambda>(r, g, b). getLuminance r g b) palette"

definition getPaletteIndexByLuminance :: "real \<Rightarrow> nat \<Rightarrow> int" where
  "getPaletteIndexByLuminance luminance paletteLength =
     (let normalized = luminance / 255;
          index = js_round (normalized * (real paletteLength - 1))
      in max 0 (min (int paletteLength - 1) index))"

definition clamp :: "real \<Rightarrow> real" where
  "clamp v = (if v < 0 then 0 else if v > 255 then 255 else v)"

section \<open>DitheringEngine\<close>

text \<open>
  A loop whose body may throw: the steps run in order over the loop's positions, and the
  first exception ends the run.
\<close>

fun run_steps :: "('p \<Rightarrow> 's \<Rightarrow> js_error + 's) \<Rightarrow> 'p list \<Rightarrow> 's \<Rightarrow> js_error + 's" where
  "run_steps f [] s = Inr s"
| "run_steps f (p # ps) s = (case f p s of Inl e \<Rightarrow> Inl e | Inr s' \<Rightarrow> run_steps f ps s')"

text \<open>\<open>for (y = 0; y < height; y++) for (x = 0; x < width; x++)\<close>: the pairs \<open>(y, x)\<close>.\<close>

definition scan_order :: "nat \<Rightarrow> nat \<Rightarrow> (nat \<times> nat) list" where
  "scan_order w h = List.product [0..<h] [0..<w]"

text \<open>The float buffer, seeded from the bytes (its alpha slots are never read).\<close>

definition seed_buffer :: "pixel list \<Rightarrow> fbuffer" where
  "seed_buffer d = map (\<lambda>(r, g, b, a). (of_int r, of_int g, of_int b)) d"

text \<open>\<open>buffer[i] += er; buffer[i + 1] += eg; buffer[i + 2] += eb\<close> at pixel index \<open>i\<close>.\<close>

definition buf_add :: "fbuffer \<Rightarrow> nat \<Rightarrow> real \<times> real \<times> real \<Rightarrow> fbuffer" where
  "buf_add buffer i e =
     (case buffer ! i of (r, g, b) \<Rightarrow>
        (case e of (er, eg, eb) \<Rightarrow> buffer[i := (r + er, g + eg, b + eb)]))"

definition scale_err :: "real \<times> real \<times> real \<Rightarrow> real \<Rightarrow> real \<times> real \<times> real" where
  "scale_err e k = (case e of (er, eg, eb) \<Rightarrow> (er * k, eg * k, eb * k))"

text \<open>
  The block ``Distribute error to neighbors'' of \<open>floydSteinberg\<close>, at the pixel \<open>(x, y)\<close>
  with the error \<open>err = (errR, errG, errB)\<close>.
\<close>

definition fs_spread ::
  "nat \<Rightarrow> nat \<Rightarrow> nat \<Rightarrow> nat \<Rightarrow> real \<times> real \<times> real \<Rightarrow> fbuffer \<Rightarrow> fbuffer" where
  "fs_spread w h y x err buffer =
     (let idx = y * w + x;
          b1 = (if x + 1 < w then buf_add buffer (idx + 1) (scale_err err 0.4375) else buffer)
      in (if y + 1 < h then
            (let b3 = (if x > 0
                       then buf_add b1 ((y + 1) * w + x - 1) (scale_err err 0.1875)
                       else b1);
                 b4 = buf_add b3 ((y + 1) * w + x) (scale_err err 0.3125)
             in if x + 1 < w
                then buf_add b4 ((y + 1) * w + x + 1) (scale_err err 0.0625)
                else b4)
          else b1))"

definition fs_step ::
  "nat \<Rightarrow> nat \<Rightarrow> rgb list \<Rightarrow> nat \<times> nat \<Rightarrow> pixel list \<times> fbuffer \<Rightarrow> js_error + pixel list \<times> fbuffer" where
  "fs_step w h palette pos st =
     (case pos of (y, x) \<Rightarrow> (case st of (d, buffer) \<Rightarrow>
        (let idx = y * w + x in
         case buffer ! idx of (r, g, b) \<Rightarrow>
           (case findClosestColor r g b palette of
              None \<Rightarrow> Inl TypeError
            | Some (nr, ng, nb) \<Rightarrow>
                (let d' = d[idx := store_rgb (d ! idx) (of_int nr) (of_int ng) (of_int nb)];
                     err = (r - of_int nr, g - of_int ng, b - of_int nb)
                 in Inr (d', fs_spread w h y x err buffer))))))"

definition floydSteinberg :: "imageData \<Rightarrow> rgb list \<Rightarrow> js_error + imageData" where
  "floydSteinberg img palette =
     (case run_steps (fs_step (width img) (height img) palette)
             (scan_order (width img) (height img)) (data img, seed_buffer (data img)) of
        Inl e \<Rightarrow> Inl e
      | Inr (d, buffer) \<Rightarrow> Inr (img\<lparr>data := d\<rparr>))"

text \<open>The pre-computed Bayer matrices, \<open>bayerMatrices[matrixSize]\<close> (\<open>None\<close>: no such key).\<close>

definition bayer2 :: "real list list" where
  "bayer2 = [[0.00, 0.50],
             [0.75, 0.25]]"

definition bayer4 :: "real list list" where
  "bayer4 = [[0.0000, 0.5000, 0.1250, 0.6250],
             [0.7500, 0.2500, 0.8750, 0.3750],
             [0.1875, 0.6875, 0.0625, 0.5625],
             [0.9375, 0.4375, 0.8125, 0.3125]]"

definition bayer8 :: "real list list" where
  "bayer8 = [[0.000, 0.500, 0.125, 0.625, 0.031, 0.531, 0.156, 0.656],
             [0.750, 0.250, 0.875, 0.375, 0.781, 0.281, 0.906, 0.406],
             [0.188, 0.688, 0.063, 0.563, 0.219, 0.719, 0.094, 0.594],
             [0.938, 0.438, 0.813, 0.313, 0.969, 0.469, 0.844, 0.344],
             [0.047, 0.547, 0.172, 0.672, 0.016, 0.516, 0.141, 0.641],
             [0.797, 0.297, 0.922, 0.422, 0.766, 0.266, 0.891, 0.391],
             [0.234, 0.734, 0.109, 0.609, 0.203, 0.703, 0.078, 0.578],
             [0.984, 0.484, 0.859, 0.359, 0.953, 0.453, 0.828, 0.328]]"

definition bayerMatrices :: "nat \<Rightarrow> real list list option" where
  "bayerMatrices n =
     (if n = 2 then Some bayer2 else if n = 4 then Some bayer4
      else if n = 8 then Some bayer8 else None)"

text \<open>
  The body of the loops of \<open>orderedDither\<close>. With \<open>matrixSize = 0\<close> the row index \<open>y % 0\<close>
  is NaN; a row that is missing makes \<open>bayer[yMod][...]\<close> throw; a threshold that is missing
  is \<open>undefined\<close>, which makes \<open>colorIdx\<close> NaN and \<open>sortedPalette[colorIdx]\<close> \<open>undefined\<close>, and
  destructuring \<open>undefined\<close> throws.
\<close>

definition ordered_step ::
  "nat \<Rightarrow> real list list \<Rightarrow> rgb list \<Rightarrow> nat \<Rightarrow> nat \<times> nat \<Rightarrow> pixel list \<Rightarrow> js_error + pixel list" where
  "ordered_step w bayer sortedPalette matrixSize pos d =
     (case pos of (y, x) \<Rightarrow>
        (if matrixSize = 0 then Inl TypeError
         else case js_index bayer (y mod matrixSize) of
           None \<Rightarrow> Inl TypeError
         | Some row \<Rightarrow>
             (case js_index row (x mod matrixSize) of
                None \<Rightarrow> Inl TypeError
              | Some threshold \<Rightarrow>
                  (let idx = y * w + x;
                       numColors = length sortedPalette
                   in case d ! idx of (r, g, b, a) \<Rightarrow>
                     (let lum = of_int (getLuminance r g b) / 255;
                          adjustedLum = lum + (threshold - 0.5) * 0.5;
                          colorIdx = getPaletteIndexByLuminance (adjustedLum * 255) numColors
                      in case js_index sortedPalette (nat colorIdx) of
                           None \<Rightarrow> Inl TypeError
                         | Some (nr, ng, nb) \<Rightarrow>
                             Inr (d[idx := store_rgb (d ! idx) (of_int nr) (of_int ng) (of_int nb)]))))))"

definition orderedDither :: "imageData \<Rightarrow> rgb list \<Rightarrow> nat \<Rightarrow> js_error + imageData" where
  "orderedDither img palette matrixSize =
     (let bayer = (case bayerMatrices matrixSize of Some m \<Rightarrow> m | None \<Rightarrow> bayer4);
          sortedPalette = sortPaletteByLuminance palette
      in case run_steps (ordered_step (width img) bayer sortedPalette matrixSize)
                (scan_order (width img) (height img)) (data img) of
           Inl e \<Rightarrow> Inl e
         | Inr d \<Rightarrow> Inr (img\<lparr>data := d\<rparr>))"

text \<open>The neighbours of Atkinson's pattern, as \<open>[dy, dx]\<close>.\<close>

definition atkinson_neighbors :: "(int \<times> int) list" where
  "atkinson_neighbors = [(0, 1), (0, 2), (1, -1), (1, 0), (1, 1), (2, 0)]"

text \<open>The body of \<open>for (const [dy, dx] of neighbors)\<close>.\<close>

definition atkinson_neighbor_add ::
  "nat \<Rightarrow> nat \<Rightarrow> nat \<Rightarrow> nat \<Rightarrow> real \<times> real \<times> real \<Rightarrow> int \<times> int \<Rightarrow> fbuffer \<Rightarrow> fbuffer" where
  "atkinson_neighbor_add w h y x err n buf =
     (case n of (dy, dx) \<Rightarrow>
        (let ny = int y + dy; nx = int x + dx
         in if ny \<ge> 0 \<and> ny < int h \<and> nx \<ge> 0 \<and> nx < int w
            then buf_add buf (nat (ny * int w + nx)) err
            else buf))"

definition atkinson_spread ::
  "nat \<Rightarrow> nat \<Rightarrow> nat \<Rightarrow> nat \<Rightarrow> real \<times> real \<times> real \<Rightarrow> fbuffer \<Rightarrow> fbuffer" where
  "atkinson_spread w h y x err buffer =
     fold (atkinson_neighbor_add w h y x err) atkinson_neighbors buffer"

definition atkinson_step ::
  "nat \<Rightarrow> nat \<Rightarrow> rgb list \<Rightarrow> nat \<times> nat \<Rightarrow> pixel list \<times> fbuffer \<Rightarrow> js_error + pixel list \<times> fbuffer" where
  "atkinson_step w h palette pos st =
     (case pos of (y, x) \<Rightarrow> (case st of (d, buffer) \<Rightarrow>
        (let idx = y * w + x in
         case buffer ! idx of (r, g, b) \<Rightarrow>
           (case findClosestColor r g b palette of
              None \<Rightarrow> Inl TypeError
            | Some (nr, ng, nb) \<Rightarrow>
                (let d' = d[idx := store_rgb (d ! idx) (of_int nr) (of_int ng) (of_int nb)];
                     err = ((r - of_int nr) * 0.125, (g - of_int ng) * 0.125,
                            (b - of_int nb) * 0.125)
                 in Inr (d', atkinson_spread w h y x err buffer))))))"

definition atkinson :: "imageData \<Rightarrow> rgb list \<Rightarrow> js_error + imageData" where
  "atkinson img palette =
     (case run_steps (atkinson_step (width img) (height img) palette)
             (scan_order (width img) (height img)) (data img, seed_buffer (data img)) of
        Inl e \<Rightarrow> Inl e
      | Inr (d, buffer) \<Rightarrow> Inr (img\<lparr>data := d\<rparr>))"

text \<open>\<open>quantize\<close>: \<open>for (i = 0; i < data.length; i += 4)\<close>, one pixel after the other.\<close>

fun quantize_loop :: "pixel list \<Rightarrow> rgb list \<Rightarrow> js_error + pixel list" where
  "quantize_loop [] palette = Inr []"
| "quantize_loop (p # ps) palette =
     (case p of (r, g, b, a) \<Rightarrow>
        (case findClosestColor (of_int r) (of_int g) (of_int b) palette of
           None \<Rightarrow> Inl TypeError
         | Some (nr, ng, nb) \<Rightarrow>
             (case quantize_loop ps palette of
                Inl e \<Rightarrow> Inl e
              | Inr ps' \<Rightarrow> Inr (store_rgb p (of_int nr) (of_int ng) (of_int nb) # ps'))))"

definition quantize :: "imageData \<Rightarrow> rgb list \<Rightarrow> js_error + imageData" where
  "quantize img palette =
     (case quantize_loop (data img) palette of
        Inl e \<Rightarrow> Inl e
      | Inr d \<Rightarrow> Inr (img\<lparr>data := d\<rparr>))"

section \<open>EffectsEngine\<close>

text \<open>The bodies of the three mode loops of \<open>posterize\<close>, and of its palette pass.\<close>

definition posterize_luminance_pixel :: "real \<Rightarrow> pixel \<Rightarrow> pixel" where
  "posterize_luminance_pixel step p =
     (case p of (r, g, b, a) \<Rightarrow>
        (let lum = getLuminance r g b;
             quantLum = of_int (js_round (of_int lum / step)) * step;
             scale = (if lum > 0 then quantLum / of_int lum else 1)
         in store_rgb p (clamp (of_int r * scale)) (clamp (of_int g * scale))
              (clamp (of_int b * scale))))"

definition posterize_channel_pixel :: "real \<Rightarrow> pixel \<Rightarrow> pixel" where
  "posterize_channel_pixel step p =
     (case p of (r, g, b, a) \<Rightarrow>
        store_rgb p (of_int (js_round (of_int r / step)) * step)
          (of_int (js_round (of_int g / step)) * step)
          (of_int (js_round (of_int b / step)) * step))"

definition posterize_artistic_pixel :: "real \<Rightarrow> real \<Rightarrow> pixel \<Rightarrow> pixel" where
  "posterize_artistic_pixel step mean p =
     (case p of (r0, g0, b0, a) \<Rightarrow>
        (let r = (of_int r0 - mean) * 1.3 + mean;
             g = (of_int g0 - mean) * 1.3 + mean;
             b = (of_int b0 - mean) * 1.3 + mean
         in store_rgb p (clamp (of_int (js_round (r / step)) * step))
              (clamp (of_int (js_round (g / step)) * step * 1.05))
              (clamp (of_int (js_round (b / step)) * step))))"

definition posterize_palette_pixel :: "rgb list \<Rightarrow> pixel \<Rightarrow> pixel" where
  "posterize_palette_pixel sortedPalette p =
     (case p of (r0, g0, b0, a) \<Rightarrow>
        (let lum = getLuminance r0 g0 b0;
             idx = getPaletteIndexByLuminance (of_int lum) (length sortedPalette)
         in case sortedPalette ! nat idx of (r, g, b) \<Rightarrow>
              store_rgb p (of_int r) (of_int g) (of_int b)))"

text \<open>
  The first half of \<open>posterize\<close>: the \<open>if / else if\<close> chain over the mode. \<open>!palette\<close> holds
  of \<open>null\<close> only (an empty array is truthy). \<open>data.length\<close> is four times the pixel count.
\<close>

definition posterize_mode :: "pixel list \<Rightarrow> real \<Rightarrow> string \<Rightarrow> rgb list option \<Rightarrow> pixel list" where
  "posterize_mode d levels0 mode palette =
     (let levels = max 2 (min 16 levels0);
          step = 255 / (levels - 1)
      in if mode = ''luminance'' \<and> palette = None then map (posterize_luminance_pixel step) d
         else if mode = ''per-channel'' then map (posterize_channel_pixel step) d
         else if mode = ''artistic'' then
           (let sum = sum_list (map (\<lambda>(r, g, b, a). r + g + b) d);
                mean = of_int sum / (real (4 * length d) * 0.75)
            in map (posterize_artistic_pixel step mean) d)
         else d)"

text \<open>The second half: \<open>if (palette && palette.length > 0)\<close>.\<close>

definition posterize_palette_pass :: "pixel list \<Rightarrow> rgb list option \<Rightarrow> pixel list" where
  "posterize_palette_pass d palette =
     (case palette of
        None \<Rightarrow> d
      | Some pal \<Rightarrow>
          if length pal > 0
          then map (posterize_palette_pixel (sortPaletteByLuminance pal)) d
          else d)"

definition posterize :: "imageData \<Rightarrow> real \<Rightarrow> string \<Rightarrow> rgb list option \<Rightarrow> imageData" where
  "posterize img levels mode palette =
     img\<lparr>data := posterize_palette_pass (posterize_mode (data img) levels mode palette) palette\<rparr>"

definition blendPixel :: "real \<Rightarrow> real \<Rightarrow> string \<Rightarrow> int" where
  "blendPixel base blend mode =
    (let b = base / 255;
         l = blend / 255;
         result =
           (if mode = ''multiply'' then b * l
            else if mode = ''screen'' then 1 - (1 - b) * (1 - l)
            else if mode = ''overlay'' then
              (if b < 0.5 then 2 * b * l else 1 - 2 * (1 - b) * (1 - l))
            else if mode = ''soft-light'' then
              (if l < 0.5 then b - (1 - 2 * l) * b * (1 - b)
               else b + (2 * l - 1) * (sqrt b - b))
            else if mode = ''hard-light'' then
              (if l < 0.5 then 2 * b * l else 1 - 2 * (1 - b) * (1 - l))
            else if mode = ''color-dodge'' then
              (if l = 1 then 1 else min 1 (b / (1 - l)))
            else if mode = ''color-burn'' then
              (if l = 0 then 0 else max 0 (1 - (1 - b) / l))
            else if mode = ''difference'' then \<bar>b - l\<bar>
            else if mode = ''exclusion'' then b + l - 2 * b * l
            else if mode = ''lighten'' then max b l
            else if mode = ''darken'' then min b l
            else l)
     in js_round (result * 255))"


text \<open>
  \<open>addNoise\<close>. \<open>Math.random()\<close> is the stream \<open>rnd\<close>: the \<open>k\<close>-th call returns \<open>rnd k\<close>, and
  the loop makes one call per pixel.
\<close>

definition noise_of :: "real \<Rightarrow> real \<Rightarrow> real" where
  "noise_of u amount = (u - 0.5) * amount * 2"

definition noise_pixel :: "real \<Rightarrow> pixel \<Rightarrow> pixel" where
  "noise_pixel noise p =
     (case p of (r, g, b, a) \<Rightarrow>
        store_rgb p (clamp (of_int r + noise)) (clamp (of_int g + noise))
          (clamp (of_int b + noise)))"

fun addNoise_loop :: "pixel list \<Rightarrow> real \<Rightarrow> (nat \<Rightarrow> real) \<Rightarrow> nat \<Rightarrow> pixel list" where
  "addNoise_loop [] amount rnd k = []"
| "addNoise_loop (p # ps) amount rnd k =
     noise_pixel (noise_of (rnd k) amount) p # addNoise_loop ps amount rnd (Suc k)"

definition addNoise :: "imageData \<Rightarrow> real \<Rightarrow> (nat \<Rightarrow> real) \<Rightarrow> imageData" where
  "addNoise img amount rnd = img\<lparr>data := addNoise_loop (data img) amount rnd 0\<rparr>"




section \<open>ImageProcessor.process: posterization, dithering and the strength blend\<close>





section \<open>The readings of the specification that the code does not follow\<close>




text \<open>
  Posterization with a palette as the specification words it: the mode's own pass first,
  whatever the mode, then the palette pass.
\<close>

definition posterize_mode_then_palette :: "imageData \<Rightarrow> real \<Rightarrow> string \<Rightarrow> rgb list \<Rightarrow> imageData" where
  "posterize_mode_then_palette img levels mode pal =
     img\<lparr>data := posterize_palette_pass (posterize_mode (data img) levels mode None) (Some pal)\<rparr>"

section \<open>Predicates and abbreviations of the statements\<close>

text \<open>The distance that \<open>findClosestColor\<close> computes for the palette entry \<open>p\<close>.\<close>

definition dist_to :: "real \<Rightarrow> real \<Rightarrow> real \<Rightarrow> rgb \<Rightarrow> real" where
  "dist_to r g b p =
     (case p of (pr, pg, pb) \<Rightarrow> colorDistanceSq r g b (of_int pr) (of_int pg) (of_int pb))"

text \<open>A palette of the data model: every channel of every entry is in 0..255.\<close>

definition valid_palette :: "rgb list \<Rightarrow> bool" where
  "valid_palette palette =
     list_all (\<lambda>(r, g, b). 0 \<le> r \<and> r \<le> 255 \<and> 0 \<le> g \<and> g \<le> 255 \<and> 0 \<le> b \<and> b \<le> 255)
       palette"

text \<open>What a \<open>Uint8ClampedArray\<close> guarantees of the colour bytes of its pixels.\<close>

definition byte_pixels :: "pixel list \<Rightarrow> bool" where
  "byte_pixels d =
     list_all (\<lambda>(r, g, b, a). 0 \<le> r \<and> r \<le> 255 \<and> 0 \<le> g \<and> g \<le> 255 \<and> 0 \<le> b \<and> b \<le> 255) d"

text \<open>
  The contract of a dithering strategy: it returns (does not throw), the raster it
  returns has the dimensions and the pixel count of the input, and the RGB of each of its
  pixels is an entry of the palette.
\<close>

definition palette_only :: "rgb list \<Rightarrow> imageData \<Rightarrow> js_error + imageData \<Rightarrow> bool" where
  "palette_only palette img res =
     (case res of
        Inl e \<Rightarrow> False
      | Inr out \<Rightarrow> width out = width img \<and> height out = height img
          \<and> length (data out) = length (data img)
          \<and> list_all (\<lambda>p. rgb_of p \<in> set palette) (data out))"





text \<open>
  What the palette pass of \<open>posterize\<close> makes of a pixel \<open>p\<close>: the index is
  \<open>round(luminance / 255 * (n - 1))\<close> clamped to [0, n - 1], the RGB of the result \<open>p'\<close> is
  the entry of the luminance-sorted palette at that index, and alpha is the one of \<open>p\<close>.
\<close>

definition palette_entry_for :: "rgb list \<Rightarrow> pixel \<Rightarrow> pixel \<Rightarrow> bool" where
  "palette_entry_for palette p p' =
     (case p of (r, g, b, a) \<Rightarrow>
        (let n = length palette;
             idx = max 0 (min (int n - 1)
                     (js_round (of_int (getLuminance r g b) / 255 * (real n - 1))))
         in 0 \<le> idx \<and> idx < int n
            \<and> rgb_of p' = sortPaletteByLuminance palette ! nat idx
            \<and> rgb_of p' \<in> set palette
            \<and> snd (snd (snd p')) = a))"


text \<open>
  How \<open>addNoise\<close> stores a pixel from the noise value \<open>n\<close>: the one \<open>n\<close> is added to each
  of R, G and B, each sum is clamped to [0, 255] by \<open>ColorUtils.clamp\<close> and stored, and
  alpha is kept.
\<close>

definition noise_stored :: "real \<Rightarrow> pixel \<Rightarrow> pixel \<Rightarrow> bool" where
  "noise_stored n p p' =
     (case p of (r, g, b, a) \<Rightarrow> (case p' of (r', g', b', a') \<Rightarrow>
        r' = toUint8Clamp (clamp (of_int r + n)) \<and> g' = toUint8Clamp (clamp (of_int g + n))
      \<and> b' = toUint8Clamp (clamp (of_int b + n)) \<and> a' = a
      \<and> 0 \<le> clamp (of_int r + n) \<and> clamp (of_int r + n) \<le> 255
      \<and> 0 \<le> clamp (of_int g + n) \<and> clamp (of_int g + n) \<le> 255
      \<and> 0 \<le> clamp (of_int b + n) \<and> clamp (of_int b + n) \<le> 255))"

section \<open>Concrete rasters, palettes and settings\<close>

text \<open>The inputs at which the theorems below are instantiated and the code is evaluated.\<close>

definition ex_palette :: "rgb list" where
  "ex_palette = [(0, 0, 0), (255, 255, 255), (255, 0, 0)]"

definition ex_quantized :: imageData where
  "ex_quantized = \<lparr>width = 2, height = 2,
     data = [(255, 0, 0, 255), (0, 0, 0, 255), (255, 255, 255, 128), (255, 0, 0, 0)]\<rparr>"

definition ex_gray :: imageData where
  "ex_gray = \<lparr>width = 2, height = 2,
     data = [(128, 128, 128, 255), (128, 128, 128, 255), (128, 128, 128, 255), (128, 128, 128, 255)]\<rparr>"

definition black_white :: "rgb list" where
  "black_white = [(0, 0, 0), (255, 255, 255)]"

text \<open>A stream of draws of \<open>Math.random()\<close>.\<close>

definition ex_rnd :: "nat \<Rightarrow> real" where
  "ex_rnd k = 3 / 4"




definition ex_pixel :: imageData where
  "ex_pixel = \<lparr>width = 1, height = 1, data = [(100, 100, 100, 255)]\<rparr>"

definition three_grays :: "rgb list" where
  "three_grays = [(0, 0, 0), (128, 128, 128), (255, 255, 255)]"



section \<open>Blend modes\<close>

lemma js_round_unit_255:
  assumes "0 \<le> r" "r \<le> 1"
  shows "0 \<le> js_round (r * 255) \<and> js_round (r * 255) \<le> 255"
proof -
  have "r * 255 \<le> 255" using assms by simp
  moreover have "0 \<le> r * 255" using assms by simp
  ultimately show ?thesis unfolding js_round_def by (simp add: floor_le_iff le_floor_iff)
qed

lemma mult_unit:
  "0 \<le> b \<Longrightarrow> b \<le> 1 \<Longrightarrow> 0 \<le> l \<Longrightarrow> l \<le> 1 \<Longrightarrow> 0 \<le> b * l \<and> b * l \<le> (1::real)"
  by (simp add: mult_le_one)

lemma screen_unit:
  assumes "0 \<le> b" "b \<le> 1" "0 \<le> l" "l \<le> (1::real)"
  shows "0 \<le> 1 - (1 - b) * (1 - l) \<and> 1 - (1 - b) * (1 - l) \<le> 1"
  using mult_unit [of "1 - b" "1 - l"] assms by simp

lemma overlay_lo_unit:
  assumes "0 \<le> b" "b < 1/2" "0 \<le> l" "l \<le> (1::real)"
  shows "0 \<le> 2 * b * l \<and> 2 * b * l \<le> 1"
  using mult_unit [of "2 * b" l] assms by simp

lemma hard_lo_unit:
  assumes "0 \<le> b" "b \<le> 1" "0 \<le> l" "l < (1/2::real)"
  shows "0 \<le> 2 * b * l \<and> 2 * b * l \<le> 1"
  using mult_unit [of b "2 * l"] assms by (simp add: mult.assoc mult.left_commute)

lemma overlay_hi_unit:
  assumes "1/2 \<le> b" "b \<le> 1" "0 \<le> l" "l \<le> (1::real)"
  shows "0 \<le> 1 - 2 * (1 - b) * (1 - l) \<and> 1 - 2 * (1 - b) * (1 - l) \<le> 1"
  using mult_unit [of "2 * (1 - b)" "1 - l"] assms by simp

lemma hard_hi_unit:
  assumes "0 \<le> b" "b \<le> 1" "1/2 \<le> l" "l \<le> (1::real)"
  shows "0 \<le> 1 - 2 * (1 - b) * (1 - l) \<and> 1 - 2 * (1 - b) * (1 - l) \<le> 1"
proof -
  have e: "2 * (1 - b) * (1 - l) = (1 - b) * (2 * (1 - l))" by (simp add: algebra_simps)
  have "0 \<le> (1 - b) * (2 * (1 - l)) \<and> (1 - b) * (2 * (1 - l)) \<le> 1"
    by (rule mult_unit) (use assms in auto)
  then show ?thesis unfolding e by linarith
qed

lemma soft_lo_unit:
  assumes "0 \<le> b" "b \<le> 1" "0 \<le> l" "l < (1/2::real)"
  shows "0 \<le> b - (1 - 2 * l) * b * (1 - b) \<and> b - (1 - 2 * l) * b * (1 - b) \<le> 1"
proof -
  have m: "0 \<le> (1 - 2 * l) * (1 - b) \<and> (1 - 2 * l) * (1 - b) \<le> 1"
    using mult_unit [of "1 - 2 * l" "1 - b"] assms by simp
  have e: "b - (1 - 2 * l) * b * (1 - b) = b * (1 - (1 - 2 * l) * (1 - b))"
    by (simp add: algebra_simps)
  show ?thesis unfolding e using mult_unit [of b "1 - (1 - 2 * l) * (1 - b)"] m assms by simp
qed

lemma soft_hi_unit:
  assumes "0 \<le> b" "b \<le> 1" "1/2 \<le> l" "l \<le> (1::real)"
  shows "0 \<le> b + (2 * l - 1) * (sqrt b - b) \<and> b + (2 * l - 1) * (sqrt b - b) \<le> 1"
proof -
  have s1: "sqrt b \<le> 1" using assms by simp
  have "b * b \<le> b * 1" using assms by (intro mult_left_mono) auto
  then have "b\<^sup>2 \<le> b" by (simp add: power2_eq_square)
  then have s2: "b \<le> sqrt b" using assms by (simp add: real_le_rsqrt)
  have m1: "0 \<le> (2 * l - 1) * (sqrt b - b)"
    using assms s2 by (intro mult_nonneg_nonneg) auto
  have m2: "(2 * l - 1) * (sqrt b - b) \<le> 1 * (sqrt b - b)"
    using assms s2 by (intro mult_right_mono) auto
  define t where "t = (2 * l - 1) * (sqrt b - b)"
  have "0 \<le> t" "t \<le> sqrt b - b" using m1 m2 by (simp_all add: t_def)
  then have "0 \<le> b + t \<and> b + t \<le> 1" using s1 assms by linarith
  then show ?thesis by (simp only: t_def)
qed

lemma dodge_unit:
  assumes "0 \<le> b" "l \<le> 1" "l \<noteq> (1::real)"
  shows "0 \<le> min 1 (b / (1 - l)) \<and> min 1 (b / (1 - l)) \<le> 1"
  using assms by simp

lemma burn_unit:
  assumes "b \<le> 1" "0 \<le> l" "l \<noteq> (0::real)"
  shows "0 \<le> max 0 (1 - (1 - b) / l) \<and> max 0 (1 - (1 - b) / l) \<le> 1"
  using assms by simp

lemma exclusion_unit:
  assumes "0 \<le> b" "b \<le> 1" "0 \<le> l" "l \<le> (1::real)"
  shows "0 \<le> b + l - 2 * b * l \<and> b + l - 2 * b * l \<le> 1"
proof -
  have e1: "b + l - 2 * b * l = b * (1 - l) + l * (1 - b)" by (simp add: algebra_simps)
  have e2: "1 - (b + l - 2 * b * l) = (1 - b) * (1 - l) + b * l" by (simp add: algebra_simps)
  have "0 \<le> b * (1 - l) + l * (1 - b)" using assms by simp
  then have A: "0 \<le> b + l - 2 * b * l" by (simp only: e1)
  have "0 \<le> (1 - b) * (1 - l) + b * l" using assms by simp
  then have "0 \<le> 1 - (b + l - 2 * b * l)" by (simp only: e2)
  with A show ?thesis by simp
qed

text \<open>
  C10. For every mode name (the twelve supported ones, and any other name, which falls to
  \<open>normal\<close>) and all \<open>base\<close>, \<open>blend\<close> in [0, 255], \<open>blendPixel\<close> returns an integer in
  [0, 255]: every branch keeps the normalized result in [0, 1] before it is rescaled
  and rounded.
\<close>

theorem blendPixel_byte_range:
  assumes "0 \<le> base" "base \<le> 255" "0 \<le> blend" "blend \<le> 255"
  shows "0 \<le> blendPixel base blend mode \<and> blendPixel base blend mode \<le> 255"
proof -
  define b where "b = base / 255"
  define l where "l = blend / 255"
  have b: "0 \<le> b" "b \<le> 1" and l: "0 \<le> l" "l \<le> 1"
    using assms by (simp_all add: b_def l_def)
  note facts = mult_unit [OF b l] screen_unit [OF b l] exclusion_unit [OF b l]
  have ov: "0 \<le> (if b < 0.5 then 2 * b * l else 1 - 2 * (1 - b) * (1 - l)) \<and>
            (if b < 0.5 then 2 * b * l else 1 - 2 * (1 - b) * (1 - l)) \<le> 1"
    using overlay_lo_unit [of b l] overlay_hi_unit [of b l] b l by simp
  have hl: "0 \<le> (if l < 0.5 then 2 * b * l else 1 - 2 * (1 - b) * (1 - l)) \<and>
            (if l < 0.5 then 2 * b * l else 1 - 2 * (1 - b) * (1 - l)) \<le> 1"
    using hard_lo_unit [of b l] hard_hi_unit [of b l] b l by simp
  have sl: "0 \<le> (if l < 0.5 then b - (1 - 2 * l) * b * (1 - b)
                  else b + (2 * l - 1) * (sqrt b - b)) \<and>
            (if l < 0.5 then b - (1 - 2 * l) * b * (1 - b)
             else b + (2 * l - 1) * (sqrt b - b)) \<le> 1"
    using soft_lo_unit [of b l] soft_hi_unit [of b l] b l by simp
  have cd: "0 \<le> (if l = 1 then 1 else min 1 (b / (1 - l))) \<and>
            (if l = 1 then 1 else min 1 (b / (1 - l))) \<le> 1"
    using dodge_unit [of b l] b l by simp
  have cb: "0 \<le> (if l = 0 then 0 else max 0 (1 - (1 - b) / l)) \<and>
            (if l = 0 then 0 else max 0 (1 - (1 - b) / l)) \<le> 1"
    using burn_unit [of b l] b l by simp
  have df: "0 \<le> \<bar>b - l\<bar> \<and> \<bar>b - l\<bar> \<le> 1" using b l by simp
  have mx: "0 \<le> max b l \<and> max b l \<le> 1" "0 \<le> min b l \<and> min b l \<le> 1"
    using b l by simp_all
  show ?thesis
    unfolding blendPixel_def Let_def b_def [symmetric] l_def [symmetric]
    by (rule js_round_unit_255)
       (simp_all only: facts ov hl sl cd cb df mx l split: if_split, simp_all)
qed

theorem blendPixel_byte_range_witness:
  "(0::real) \<le> 64 \<and> (64::real) \<le> 255 \<and> (0::real) \<le> 200 \<and> (200::real) \<le> 255
   \<and> 0 \<le> blendPixel 64 200 ''soft-light'' \<and> blendPixel 64 200 ''soft-light'' \<le> 255"
  using blendPixel_byte_range [of 64 200 "''soft-light''"] by simp








section \<open>Nearest colour and plain quantization\<close>

lemma findClosest_loop_Cons:
  "findClosest_loop r g b (p # ps) (m, cl) =
     (if (case m of None \<Rightarrow> True | Some d \<Rightarrow> dist_to r g b p < d)
      then findClosest_loop r g b ps (Some (dist_to r g b p), Some p)
      else findClosest_loop r g b ps (m, cl))"
  by (cases p; cases m) (simp_all add: dist_to_def Let_def)

lemma findClosest_loop_min:
  assumes "findClosest_loop r g b ps (m, cl) = (m', cl')"
    and "m = None \<or> (\<exists>c0. cl = Some c0 \<and> m = Some (dist_to r g b c0))"
    and "ps \<noteq> [] \<or> m \<noteq> None"
  shows "\<exists>c. cl' = Some c \<and> m' = Some (dist_to r g b c)
            \<and> (\<forall>p \<in> set ps. dist_to r g b c \<le> dist_to r g b p)
            \<and> (c \<in> set ps \<or> cl = Some c)
            \<and> (\<forall>d. m = Some d \<longrightarrow> dist_to r g b c \<le> d)"
  using assms
proof (induction ps arbitrary: m cl)
  case Nil
  then show ?case by auto
next
  case (Cons p ps)
  let ?d = "dist_to r g b p"
  show ?case
  proof (cases "case m of None \<Rightarrow> True | Some d \<Rightarrow> ?d < d")
    case True
    then have run: "findClosest_loop r g b ps (Some ?d, Some p) = (m', cl')"
      using Cons.prems(1) by (simp only: findClosest_loop_Cons if_True)
    from Cons.IH [OF run] obtain c where c: "cl' = Some c" "m' = Some (dist_to r g b c)"
      "\<forall>q \<in> set ps. dist_to r g b c \<le> dist_to r g b q" "c \<in> set ps \<or> Some p = Some c"
      "dist_to r g b c \<le> ?d"
      by auto
    have "\<forall>d. m = Some d \<longrightarrow> dist_to r g b c \<le> d"
      using True c(5) by (auto split: option.splits)
    with c show ?thesis by auto
  next
    case False
    then obtain d where m: "m = Some d" and dle: "d \<le> ?d" by (auto split: option.splits)
    then obtain c0 where c0: "cl = Some c0" "d = dist_to r g b c0" using Cons.prems(2) by auto
    have run: "findClosest_loop r g b ps (m, cl) = (m', cl')"
      using Cons.prems(1) False by (simp only: findClosest_loop_Cons if_False)
    from Cons.IH [OF run] m c0 obtain c where c: "cl' = Some c" "m' = Some (dist_to r g b c)"
      "\<forall>q \<in> set ps. dist_to r g b c \<le> dist_to r g b q" "c \<in> set ps \<or> cl = Some c"
      "dist_to r g b c \<le> d"
      by auto
    with dle m show ?thesis by auto
  qed
qed

lemma findClosestColor_min:
  assumes "palette \<noteq> []"
  shows "\<exists>c. findClosestColor r g b palette = Some c \<and> c \<in> set palette
            \<and> (\<forall>p \<in> set palette. dist_to r g b c \<le> dist_to r g b p)"
proof -
  obtain m' cl' where run: "findClosest_loop r g b palette (None, js_index palette 0) = (m', cl')"
    by (cases "findClosest_loop r g b palette (None, js_index palette 0)")
  from findClosest_loop_min [OF run] assms obtain c where c: "cl' = Some c"
    "\<forall>p \<in> set palette. dist_to r g b c \<le> dist_to r g b p"
    "c \<in> set palette \<or> js_index palette 0 = Some c"
    by auto
  have "c \<in> set palette" using c(3) assms by (auto simp: js_index_def split: if_splits)
  with c run show ?thesis by (simp add: findClosestColor_def)
qed


lemma dist_to_zero_iff:
  "dist_to r g b (pr, pg, pb) = 0 \<longleftrightarrow> r = of_int pr \<and> g = of_int pg \<and> b = of_int pb"
proof -
  have nn: "0 \<le> x * x * (3/10)" "0 \<le> x * x * (59/100)" "0 \<le> x * x * (11/100)" for x :: real
    by simp_all
  have z: "x * x * k = 0 \<longleftrightarrow> x = 0" if "k > 0" for x k :: real using that by auto
  show ?thesis
    unfolding dist_to_def colorDistanceSq_def Let_def
    using nn [of "r - of_int pr"] nn [of "g - of_int pg"] nn [of "b - of_int pb"]
    by (auto simp: add_nonneg_eq_0_iff)
qed

lemma dist_to_nonneg: "0 \<le> dist_to r g b p"
  by (cases p) (simp add: dist_to_def colorDistanceSq_def Let_def)

lemma findClosestColor_member:
  assumes "(pr, pg, pb) \<in> set palette"
  shows "findClosestColor (of_int pr) (of_int pg) (of_int pb) palette = Some (pr, pg, pb)"
proof -
  have ne: "palette \<noteq> []" using assms by auto
  from findClosestColor_min [OF ne, of "of_int pr" "of_int pg" "of_int pb"]
  obtain c where c: "findClosestColor (of_int pr) (of_int pg) (of_int pb) palette = Some c"
    "\<forall>p \<in> set palette. dist_to (of_int pr) (of_int pg) (of_int pb) c
        \<le> dist_to (of_int pr) (of_int pg) (of_int pb) p"
    by auto
  have "dist_to (of_int pr) (of_int pg) (of_int pb) (pr, pg, pb) = 0"
    by (simp add: dist_to_zero_iff)
  with c(2) assms have "dist_to (of_int pr) (of_int pg) (of_int pb) c \<le> 0" by fastforce
  with dist_to_nonneg [of "of_int pr" "of_int pg" "of_int pb" c]
  have z: "dist_to (of_int pr) (of_int pg) (of_int pb) c = 0" by linarith
  obtain cr cg cb where cc: "c = (cr, cg, cb)" by (cases c)
  from z have "c = (pr, pg, pb)" unfolding cc dist_to_zero_iff by simp
  with c(1) show ?thesis by simp
qed

text \<open>A tie goes to the earlier entry: the comparison \<open>dist < minDist\<close> is strict.\<close>

lemma findClosestColor_tie_first:
  "findClosestColor 127.5 127.5 127.5 [(0, 0, 0), (255, 255, 255)] = Some (0, 0, 0)
   \<and> findClosestColor 127.5 127.5 127.5 [(255, 255, 255), (0, 0, 0)] = Some (255, 255, 255)"
  by code_simp

lemma toUint8Clamp_byte:
  assumes "0 \<le> v" "v \<le> 255"
  shows "toUint8Clamp (of_int v) = v"
  using assms by (auto simp: toUint8Clamp_def Let_def)

lemma store_rgb_palette:
  assumes "valid_palette palette" "(nr, ng, nb) \<in> set palette"
  shows "rgb_of (store_rgb p (of_int nr) (of_int ng) (of_int nb)) = (nr, ng, nb)"
proof -
  have "0 \<le> nr \<and> nr \<le> 255 \<and> 0 \<le> ng \<and> ng \<le> 255 \<and> 0 \<le> nb \<and> nb \<le> 255"
    using assms by (auto simp: valid_palette_def list_all_iff)
  then show ?thesis
    by (cases p) (simp add: store_rgb_def rgb_of_def toUint8Clamp_byte)
qed

lemma quantize_loop_palette:
  assumes "palette \<noteq> []" "valid_palette palette"
  shows "\<exists>d'. quantize_loop d palette = Inr d' \<and> length d' = length d
            \<and> list_all (\<lambda>p. rgb_of p \<in> set palette) d'"
proof (induction d)
  case Nil
  show ?case by simp
next
  case (Cons p ps)
  obtain r g b a where p: "p = (r, g, b, a)" by (cases p)
  from findClosestColor_min [OF assms(1), of "of_int r" "of_int g" "of_int b"]
  obtain nr ng nb where c: "findClosestColor (of_int r) (of_int g) (of_int b) palette = Some (nr, ng, nb)"
    "(nr, ng, nb) \<in> set palette" by (metis prod_cases3)
  from Cons.IH obtain ps' where ps': "quantize_loop ps palette = Inr ps'" "length ps' = length ps"
    "list_all (\<lambda>p. rgb_of p \<in> set palette) ps'" by auto
  show ?case
    using c ps' store_rgb_palette [OF assms(2) c(2), of p] by (simp add: p)
qed

lemma quantize_loop_fixed:
  assumes "byte_pixels d" "list_all (\<lambda>p. rgb_of p \<in> set palette) d"
  shows "quantize_loop d palette = Inr d"
  using assms
proof (induction d)
  case Nil
  show ?case by simp
next
  case (Cons p ps)
  obtain r g b a where p: "p = (r, g, b, a)" by (cases p)
  have mem: "(r, g, b) \<in> set palette" using Cons.prems(2) by (simp add: p rgb_of_def)
  have bytes: "0 \<le> r" "r \<le> 255" "0 \<le> g" "g \<le> 255" "0 \<le> b" "b \<le> 255"
    using Cons.prems(1) by (simp_all add: p byte_pixels_def)
  have rest: "quantize_loop ps palette = Inr ps"
    using Cons.IH Cons.prems by (simp add: byte_pixels_def)
  show ?case
    using findClosestColor_member [OF mem] rest bytes
    by (simp add: p store_rgb_def toUint8Clamp_byte)
qed

text \<open>
  C7. Quantizing a raster whose pixels already carry palette colours returns the same
  raster, byte for byte: the nearest entry of a colour that is in the palette is an entry
  at distance 0, and only an entry equal to the colour is at distance 0. (The palette
  need not be duplicate-free for this.)
\<close>

theorem quantize_idempotent:
  assumes "byte_pixels (data img)"
    and "list_all (\<lambda>p. rgb_of p \<in> set palette) (data img)"
  shows "quantize img palette = Inr img"
  using quantize_loop_fixed [OF assms] by (simp add: quantize_def)

theorem quantize_idempotent_witness:
  "byte_pixels (data ex_quantized)
   \<and> list_all (\<lambda>p. rgb_of p \<in> set ex_palette) (data ex_quantized)
   \<and> quantize ex_quantized ex_palette = Inr ex_quantized"
proof -
  have h1: "byte_pixels (data ex_quantized)"
    by (simp add: byte_pixels_def ex_quantized_def)
  have h2: "list_all (\<lambda>p. rgb_of p \<in> set ex_palette) (data ex_quantized)"
    by (simp add: ex_quantized_def ex_palette_def rgb_of_def)
  show ?thesis using h1 h2 quantize_idempotent [OF h1 h2] by simp
qed

section \<open>Palette membership of the four strategies\<close>

lemma run_steps_paint:
  fixes f :: "nat \<times> nat \<Rightarrow> 's \<Rightarrow> js_error + 's" and dat :: "'s \<Rightarrow> pixel list"
  assumes step: "\<And>pos s. \<exists>s' nr ng nb. f pos s = Inr s' \<and> (nr, ng, nb) \<in> set palette
      \<and> dat s' = (dat s)[idx pos := store_rgb (dat s ! idx pos) (of_int nr) (of_int ng) (of_int nb)]"
    and valid: "valid_palette palette"
  shows "\<exists>s'. run_steps f ps s = Inr s' \<and> length (dat s') = length (dat s)
          \<and> (\<forall>i < length (dat s).
                (i \<in> idx ` set ps \<longrightarrow> rgb_of (dat s' ! i) \<in> set palette)
              \<and> (i \<notin> idx ` set ps \<longrightarrow> dat s' ! i = dat s ! i))"
proof (induction ps arbitrary: s)
  case Nil
  show ?case by simp
next
  case (Cons p ps)
  from step [of p s] obtain s1 nr ng nb where s1: "f p s = Inr s1" "(nr, ng, nb) \<in> set palette"
    "dat s1 = (dat s)[idx p := store_rgb (dat s ! idx p) (of_int nr) (of_int ng) (of_int nb)]"
    by blast
  have len1: "length (dat s1) = length (dat s)" by (simp add: s1(3))
  from Cons.IH [of s1] obtain s' where s': "run_steps f ps s1 = Inr s'"
    "length (dat s') = length (dat s1)"
    "\<forall>i < length (dat s1).
        (i \<in> idx ` set ps \<longrightarrow> rgb_of (dat s' ! i) \<in> set palette)
      \<and> (i \<notin> idx ` set ps \<longrightarrow> dat s' ! i = dat s1 ! i)"
    by blast
  have painted: "rgb_of (dat s1 ! idx p) \<in> set palette" if "idx p < length (dat s)"
    using that s1(2) store_rgb_palette [OF valid s1(2)] by (simp add: s1(3))
  have "\<forall>i < length (dat s).
          (i \<in> idx ` set (p # ps) \<longrightarrow> rgb_of (dat s' ! i) \<in> set palette)
        \<and> (i \<notin> idx ` set (p # ps) \<longrightarrow> dat s' ! i = dat s ! i)"
  proof (intro allI impI conjI)
    fix i assume i: "i < length (dat s)" and "i \<in> idx ` set (p # ps)"
    then consider "i \<in> idx ` set ps" | "i \<notin> idx ` set ps" "i = idx p" by auto
    then show "rgb_of (dat s' ! i) \<in> set palette"
    proof cases
      case 1
      then show ?thesis using s'(3) i len1 by simp
    next
      case 2
      then have "dat s' ! i = dat s1 ! i" using s'(3) i len1 by simp
      then show ?thesis using painted 2 i by simp
    qed
  next
    fix i assume i: "i < length (dat s)" and n: "i \<notin> idx ` set (p # ps)"
    then have "dat s' ! i = dat s1 ! i" using s'(3) len1 by simp
    also have "\<dots> = dat s ! i" using n by (simp add: s1(3))
    finally show "dat s' ! i = dat s ! i" .
  qed
  then show ?case using s1(1) s' len1 by simp
qed

lemma scan_order_covers:
  assumes "i < w * h"
  shows "i \<in> (\<lambda>(y, x). y * w + x) ` set (scan_order w h)"
proof -
  have w: "0 < w" using assms by (cases w) auto
  have "i div w < h" using assms w by (simp add: less_mult_imp_div_less mult.commute)
  moreover have "i mod w < w" using w by simp
  ultimately have "(i div w, i mod w) \<in> set (scan_order w h)" by (simp add: scan_order_def)
  moreover have "(\<lambda>(y, x). y * w + x) (i div w, i mod w) = i" by simp
  ultimately show ?thesis by (metis (no_types, lifting) image_iff)
qed

lemma run_steps_paint_all:
  fixes f :: "nat \<times> nat \<Rightarrow> 's \<Rightarrow> js_error + 's" and dat :: "'s \<Rightarrow> pixel list"
  assumes step: "\<And>pos s. \<exists>s' nr ng nb. f pos s = Inr s' \<and> (nr, ng, nb) \<in> set palette
      \<and> dat s' = (dat s)[(\<lambda>(y, x). y * w + x) pos :=
            store_rgb (dat s ! (\<lambda>(y, x). y * w + x) pos) (of_int nr) (of_int ng) (of_int nb)]"
    and valid: "valid_palette palette"
    and len: "length (dat s) = w * h"
  shows "\<exists>s'. run_steps f (scan_order w h) s = Inr s' \<and> length (dat s') = length (dat s)
          \<and> list_all (\<lambda>p. rgb_of p \<in> set palette) (dat s')"
proof -
  from run_steps_paint [of f palette dat "\<lambda>(y, x). y * w + x", OF step valid, of "scan_order w h" s]
  obtain s' where s': "run_steps f (scan_order w h) s = Inr s'" "length (dat s') = length (dat s)"
    "\<forall>i < length (dat s). (i \<in> (\<lambda>(y, x). y * w + x) ` set (scan_order w h)
        \<longrightarrow> rgb_of (dat s' ! i) \<in> set palette)"
    by blast
  have "\<forall>i < length (dat s'). rgb_of (dat s' ! i) \<in> set palette"
    using s'(2,3) len scan_order_covers [of _ w h] by simp
  then show ?thesis using s'(1,2) by (auto simp: list_all_length)
qed

lemma fs_step_paints:
  assumes "palette \<noteq> []"
  shows "\<exists>s' nr ng nb. fs_step w h palette pos s = Inr s' \<and> (nr, ng, nb) \<in> set palette
      \<and> fst s' = (fst s)[(\<lambda>(y, x). y * w + x) pos :=
            store_rgb (fst s ! (\<lambda>(y, x). y * w + x) pos) (of_int nr) (of_int ng) (of_int nb)]"
proof -
  obtain y x where pos: "pos = (y, x)" by (cases pos)
  obtain d buffer where s: "s = (d, buffer)" by (cases s)
  obtain r g b where rgb: "buffer ! (y * w + x) = (r, g, b)" by (cases "buffer ! (y * w + x)")
  from findClosestColor_min [OF assms, of r g b]
  obtain nr ng nb where c: "findClosestColor r g b palette = Some (nr, ng, nb)"
    "(nr, ng, nb) \<in> set palette" by (metis prod_cases3)
  show ?thesis
    using c by (simp add: fs_step_def pos s rgb Let_def) blast
qed

lemma atkinson_step_paints:
  assumes "palette \<noteq> []"
  shows "\<exists>s' nr ng nb. atkinson_step w h palette pos s = Inr s' \<and> (nr, ng, nb) \<in> set palette
      \<and> fst s' = (fst s)[(\<lambda>(y, x). y * w + x) pos :=
            store_rgb (fst s ! (\<lambda>(y, x). y * w + x) pos) (of_int nr) (of_int ng) (of_int nb)]"
proof -
  obtain y x where pos: "pos = (y, x)" by (cases pos)
  obtain d buffer where s: "s = (d, buffer)" by (cases s)
  obtain r g b where rgb: "buffer ! (y * w + x) = (r, g, b)" by (cases "buffer ! (y * w + x)")
  from findClosestColor_min [OF assms, of r g b]
  obtain nr ng nb where c: "findClosestColor r g b palette = Some (nr, ng, nb)"
    "(nr, ng, nb) \<in> set palette" by (metis prod_cases3)
  show ?thesis
    using c by (simp add: atkinson_step_def pos s rgb Let_def) blast
qed

lemma floydSteinberg_palette:
  assumes "palette \<noteq> []" "valid_palette palette" "length (data img) = width img * height img"
  shows "palette_only palette img (floydSteinberg img palette)"
proof -
  from run_steps_paint_all [of "fs_step (width img) (height img) palette" palette fst "width img"
      "(data img, seed_buffer (data img))" "height img", OF fs_step_paints [OF assms(1)] assms(2)]
    assms(3)
  obtain s' where s': "run_steps (fs_step (width img) (height img) palette)
      (scan_order (width img) (height img)) (data img, seed_buffer (data img)) = Inr s'"
    "length (fst s') = length (data img)" "list_all (\<lambda>p. rgb_of p \<in> set palette) (fst s')"
    by auto
  show ?thesis
    using s' by (cases s') (simp add: floydSteinberg_def palette_only_def)
qed

lemma atkinson_palette:
  assumes "palette \<noteq> []" "valid_palette palette" "length (data img) = width img * height img"
  shows "palette_only palette img (atkinson img palette)"
proof -
  from run_steps_paint_all [of "atkinson_step (width img) (height img) palette" palette fst
      "width img" "(data img, seed_buffer (data img))" "height img",
      OF atkinson_step_paints [OF assms(1)] assms(2)] assms(3)
  obtain s' where s': "run_steps (atkinson_step (width img) (height img) palette)
      (scan_order (width img) (height img)) (data img, seed_buffer (data img)) = Inr s'"
    "length (fst s') = length (data img)" "list_all (\<lambda>p. rgb_of p \<in> set palette) (fst s')"
    by auto
  show ?thesis
    using s' by (cases s') (simp add: atkinson_def palette_only_def)
qed

lemma quantize_palette:
  assumes "palette \<noteq> []" "valid_palette palette"
  shows "palette_only palette img (quantize img palette)"
  using quantize_loop_palette [OF assms, of "data img"]
  by (auto simp: quantize_def palette_only_def)

lemma bayer_shapes:
  "length bayer2 = 2 \<and> list_all (\<lambda>row. length row = 2) bayer2"
  "length bayer4 = 4 \<and> list_all (\<lambda>row. length row = 4) bayer4"
  "length bayer8 = 8 \<and> list_all (\<lambda>row. length row = 8) bayer8"
  by (simp_all add: bayer2_def bayer4_def bayer8_def)

lemma js_index_square:
  assumes "length m = n" "list_all (\<lambda>row. length row = n) m" "0 < n"
  shows "\<exists>row t. js_index m (y mod n) = Some row \<and> js_index row (x mod n) = Some t"
proof -
  have y: "y mod n < length m" using assms by simp
  then have "m ! (y mod n) \<in> set m" by simp
  then have "length (m ! (y mod n)) = n" using assms(2) by (simp add: list_all_iff)
  then show ?thesis using y assms(3) by (simp add: js_index_def)
qed

lemma bayer_threshold_defined:
  assumes "ms \<in> {2, 4, 8}"
  shows "\<exists>row t. js_index (case bayerMatrices ms of Some m \<Rightarrow> m | None \<Rightarrow> bayer4) (y mod ms) = Some row
          \<and> js_index row (x mod ms) = Some t"
proof -
  consider "ms = 2" | "ms = 4" | "ms = 8" using assms by auto
  then show ?thesis
  proof cases
    case 1
    then show ?thesis
      using js_index_square [of bayer2 2 y x] bayer_shapes(1) by (simp add: bayerMatrices_def)
  next
    case 2
    then show ?thesis
      using js_index_square [of bayer4 4 y x] bayer_shapes(2) by (simp add: bayerMatrices_def)
  next
    case 3
    then show ?thesis
      using js_index_square [of bayer8 8 y x] bayer_shapes(3) by (simp add: bayerMatrices_def)
  qed
qed

lemma getPaletteIndexByLuminance_range:
  assumes "0 < n"
  shows "0 \<le> getPaletteIndexByLuminance v n \<and> getPaletteIndexByLuminance v n < int n"
  using assms by (simp add: getPaletteIndexByLuminance_def Let_def)

lemma sortPaletteByLuminance_set: "set (sortPaletteByLuminance palette) = set palette"
  by (simp add: sortPaletteByLuminance_def)

lemma sortPaletteByLuminance_length: "length (sortPaletteByLuminance palette) = length palette"
  by (simp add: sortPaletteByLuminance_def)

lemma sorted_palette_entry:
  assumes "palette \<noteq> []"
  shows "\<exists>c. js_index (sortPaletteByLuminance palette)
            (nat (getPaletteIndexByLuminance v (length (sortPaletteByLuminance palette)))) = Some c
          \<and> c \<in> set palette"
proof -
  let ?sp = "sortPaletteByLuminance palette"
  have n: "0 < length ?sp" using assms by (simp add: sortPaletteByLuminance_length)
  from getPaletteIndexByLuminance_range [OF n, of v]
  have lt: "nat (getPaletteIndexByLuminance v (length ?sp)) < length ?sp" by linarith
  then have "?sp ! nat (getPaletteIndexByLuminance v (length ?sp)) \<in> set ?sp" by simp
  then show ?thesis using lt by (simp add: js_index_def sortPaletteByLuminance_set)
qed

lemma ordered_step_paints:
  assumes "palette \<noteq> []" "ms \<in> {2, 4, 8}"
  shows "\<exists>s' nr ng nb.
      ordered_step w (case bayerMatrices ms of Some m \<Rightarrow> m | None \<Rightarrow> bayer4)
        (sortPaletteByLuminance palette) ms pos s = Inr s' \<and> (nr, ng, nb) \<in> set palette
      \<and> id s' = (id s)[(\<lambda>(y, x). y * w + x) pos :=
            store_rgb (id s ! (\<lambda>(y, x). y * w + x) pos) (of_int nr) (of_int ng) (of_int nb)]"
proof -
  obtain y x where pos: "pos = (y, x)" by (cases pos)
  have ms: "ms \<noteq> 0" using assms(2) by auto
  from bayer_threshold_defined [OF assms(2), of y x]
  obtain row t where row: "js_index (case bayerMatrices ms of Some m \<Rightarrow> m | None \<Rightarrow> bayer4) (y mod ms) = Some row"
    "js_index row (x mod ms) = Some t" by blast
  obtain r g b a where px: "s ! (y * w + x) = (r, g, b, a)" by (cases "s ! (y * w + x)")
  from sorted_palette_entry [OF assms(1),
      of "(of_int (getLuminance r g b) / 255 + (t - 0.5) * 0.5) * 255"]
  obtain nr ng nb where c: "js_index (sortPaletteByLuminance palette)
      (nat (getPaletteIndexByLuminance ((of_int (getLuminance r g b) / 255 + (t - 0.5) * 0.5) * 255)
         (length (sortPaletteByLuminance palette)))) = Some (nr, ng, nb)"
    "(nr, ng, nb) \<in> set palette" by (metis prod_cases3)
  show ?thesis
    using c row ms px by (simp add: ordered_step_def pos Let_def) blast
qed

lemma orderedDither_palette:
  assumes "palette \<noteq> []" "valid_palette palette" "length (data img) = width img * height img"
    "ms \<in> {2, 4, 8}"
  shows "palette_only palette img (orderedDither img palette ms)"
proof -
  from run_steps_paint_all [of "ordered_step (width img)
        (case bayerMatrices ms of Some m \<Rightarrow> m | None \<Rightarrow> bayer4) (sortPaletteByLuminance palette) ms"
      palette id "width img" "data img" "height img",
      OF ordered_step_paints [OF assms(1) assms(4)] assms(2)] assms(3)
  obtain s' where s': "run_steps (ordered_step (width img)
        (case bayerMatrices ms of Some m \<Rightarrow> m | None \<Rightarrow> bayer4) (sortPaletteByLuminance palette) ms)
      (scan_order (width img) (height img)) (data img) = Inr s'"
    "length s' = length (data img)" "list_all (\<lambda>p. rgb_of p \<in> set palette) s'"
    by auto
  show ?thesis
    using s' by (simp add: orderedDither_def palette_only_def Let_def)
qed

text \<open>
  C1. For every non-empty palette (of byte channels) and every raster (with
  \<open>width * height\<close> pixels), each of \<open>quantize\<close>, \<open>floydSteinberg\<close>, \<open>atkinson\<close> and
  \<open>orderedDither\<close> (matrix size 2, 4 or 8) returns a raster of the same width, height and
  pixel count in which the RGB of every pixel is an entry of the palette.
\<close>

theorem dithering_palette_membership:
  assumes "palette \<noteq> []" "valid_palette palette"
    and "length (data img) = width img * height img"
    and "matrixSize \<in> {2, 4, 8}"
  shows "palette_only palette img (quantize img palette)
       \<and> palette_only palette img (floydSteinberg img palette)
       \<and> palette_only palette img (atkinson img palette)
       \<and> palette_only palette img (orderedDither img palette matrixSize)"
  using quantize_palette [OF assms(1,2)] floydSteinberg_palette [OF assms(1,2,3)]
    atkinson_palette [OF assms(1,2,3)] orderedDither_palette [OF assms]
  by simp


theorem dithering_palette_membership_witness:
  "black_white \<noteq> [] \<and> valid_palette black_white
   \<and> length (data ex_gray) = width ex_gray * height ex_gray
   \<and> (4::nat) \<in> {2, 4, 8}
   \<and> palette_only black_white ex_gray (quantize ex_gray black_white)
   \<and> palette_only black_white ex_gray (floydSteinberg ex_gray black_white)
   \<and> palette_only black_white ex_gray (atkinson ex_gray black_white)
   \<and> palette_only black_white ex_gray (orderedDither ex_gray black_white 4)"
proof -
  have h1: "black_white \<noteq> []" by (simp add: black_white_def)
  have h2: "valid_palette black_white" by (simp add: black_white_def valid_palette_def)
  have h3: "length (data ex_gray) = width ex_gray * height ex_gray" by (simp add: ex_gray_def)
  have h4: "(4::nat) \<in> {2, 4, 8}" by simp
  show ?thesis
    using h1 h2 h3 h4 dithering_palette_membership [OF h1 h2 h3 h4] by simp
qed

text \<open>
  The scenario of the specification: a uniform mid-gray 2 x 2 raster and the palette
  [black, white] dither to a checker of two white and two black pixels.
\<close>

lemma floydSteinberg_gray_scenario:
  "floydSteinberg ex_gray black_white = Inr \<lparr>width = 2, height = 2,
     data = [(255, 255, 255, 255), (0, 0, 0, 255), (0, 0, 0, 255), (255, 255, 255, 255)]\<rparr>"
  by code_simp

section \<open>Noise\<close>

lemma toUint8Clamp_range: "0 \<le> toUint8Clamp x \<and> toUint8Clamp x \<le> 255"
proof -
  have "0 \<le> \<lfloor>x\<rfloor> \<and> \<lfloor>x\<rfloor> + 1 \<le> 255" if "0 < x" "x < 255"
  proof -
    have "0 \<le> \<lfloor>x\<rfloor>" using that by simp
    moreover have "\<lfloor>x\<rfloor> < 255" using that by (simp add: floor_less_iff)
    ultimately show ?thesis by simp
  qed
  then show ?thesis
    by (auto simp: toUint8Clamp_def Let_def not_le)
qed

lemma noise_of_range:
  assumes "0 \<le> amount" "0 \<le> u" "u < 1"
  shows "- amount \<le> noise_of u amount \<and> (0 < amount \<longrightarrow> noise_of u amount < amount)
         \<and> (amount = 0 \<longrightarrow> noise_of u amount = 0)"
proof -
  have e: "noise_of u amount = (2 * u - 1) * amount" by (simp add: noise_of_def algebra_simps)
  have lo: "- 1 \<le> 2 * u - 1" and hi: "2 * u - 1 < 1" using assms by simp_all
  have "(- 1) * amount \<le> (2 * u - 1) * amount"
    using lo assms(1) by (intro mult_right_mono) auto
  moreover have "(2 * u - 1) * amount < 1 * amount" if "0 < amount"
    using hi that by (intro mult_strict_right_mono) auto
  ultimately show ?thesis unfolding e by auto
qed

lemma addNoise_loop_length: "length (addNoise_loop ps amount rnd j) = length ps"
  by (induction ps arbitrary: j) simp_all

lemma addNoise_loop_nth:
  "k < length ps \<Longrightarrow>
     addNoise_loop ps amount rnd j ! k = noise_pixel (noise_of (rnd (j + k)) amount) (ps ! k)"
proof (induction ps arbitrary: j k)
  case Nil
  then show ?case by simp
next
  case (Cons p ps)
  show ?case
  proof (cases k)
    case 0
    then show ?thesis by simp
  next
    case (Suc k')
    then show ?thesis using Cons.IH [of k' "Suc j"] Cons.prems by simp
  qed
qed

lemma clamp_range: "0 \<le> clamp v \<and> clamp v \<le> 255"
  by (simp add: clamp_def)

lemma noise_pixel_zero:
  assumes "0 \<le> r" "r \<le> 255" "0 \<le> g" "g \<le> 255" "0 \<le> b" "b \<le> 255"
  shows "noise_pixel 0 (r, g, b, a) = (r, g, b, a)"
  using assms by (simp add: noise_pixel_def store_rgb_def clamp_def toUint8Clamp_byte)

lemma addNoise_loop_zero:
  assumes "byte_pixels ps"
  shows "addNoise_loop ps 0 rnd j = ps"
  using assms
proof (induction ps arbitrary: j)
  case Nil
  show ?case by simp
next
  case (Cons p ps)
  obtain r g b a where p: "p = (r, g, b, a)" by (cases p)
  have "noise_pixel (noise_of (rnd j) 0) p = p"
    using Cons.prems noise_pixel_zero [of r g b a] by (simp add: p byte_pixels_def noise_of_def)
  moreover have "addNoise_loop ps 0 rnd (Suc j) = ps"
    using Cons.IH Cons.prems by (simp add: byte_pixels_def)
  ultimately show ?case by simp
qed

lemma noise_pixel_stored: "noise_stored n p (noise_pixel n p)"
  by (cases p) (simp add: noise_stored_def noise_pixel_def store_rgb_def clamp_range)

text \<open>
  C9. For \<open>amount \<ge> 0\<close> and draws of \<open>Math.random()\<close> in [0, 1), pixel \<open>k\<close> gets the one
  value \<open>n = (rnd k - 0.5) * amount * 2\<close>, which lies in [-amount, amount) (and is 0 when
  \<open>amount = 0\<close>, where that interval shrinks to the point 0); the same \<open>n\<close> is added to R,
  G and B, each sum is clamped to [0, 255] and stored, and alpha stays. With
  \<open>amount = 0\<close> the output raster equals the input raster.
\<close>

theorem addNoise_single_value_per_pixel:
  assumes amount: "0 \<le> amount"
    and rnd: "\<forall>k. 0 \<le> rnd k \<and> rnd k < 1"
    and bytes: "byte_pixels (data img)"
  shows "width (addNoise img amount rnd) = width img
       \<and> height (addNoise img amount rnd) = height img
       \<and> length (data (addNoise img amount rnd)) = length (data img)
       \<and> (\<forall>k < length (data img).
             - amount \<le> noise_of (rnd k) amount
           \<and> (0 < amount \<longrightarrow> noise_of (rnd k) amount < amount)
           \<and> noise_stored (noise_of (rnd k) amount) (data img ! k)
                (data (addNoise img amount rnd) ! k))
       \<and> (amount = 0 \<longrightarrow> addNoise img amount rnd = img)"
proof -
  have per: "\<forall>k < length (data img).
             - amount \<le> noise_of (rnd k) amount
           \<and> (0 < amount \<longrightarrow> noise_of (rnd k) amount < amount)
           \<and> noise_stored (noise_of (rnd k) amount) (data img ! k)
                (data (addNoise img amount rnd) ! k)"
  proof (intro allI impI)
    fix k assume k: "k < length (data img)"
    have "data (addNoise img amount rnd) ! k = noise_pixel (noise_of (rnd k) amount) (data img ! k)"
      using addNoise_loop_nth [OF k, of amount rnd 0] by (simp add: addNoise_def)
    then show "- amount \<le> noise_of (rnd k) amount
           \<and> (0 < amount \<longrightarrow> noise_of (rnd k) amount < amount)
           \<and> noise_stored (noise_of (rnd k) amount) (data img ! k)
                (data (addNoise img amount rnd) ! k)"
      using noise_of_range [OF amount, of "rnd k"] rnd noise_pixel_stored by simp
  qed
  have zero: "amount = 0 \<longrightarrow> addNoise img amount rnd = img"
    using addNoise_loop_zero [OF bytes, of rnd 0] by (simp add: addNoise_def)
  show ?thesis using per zero by (simp add: addNoise_def addNoise_loop_length)
qed

theorem addNoise_single_value_per_pixel_witness:
  "(0::real) \<le> 10 \<and> (\<forall>k. 0 \<le> ex_rnd k \<and> ex_rnd k < 1) \<and> byte_pixels (data ex_quantized)
   \<and> noise_of (ex_rnd 0) 10 = 5
   \<and> noise_stored (noise_of (ex_rnd 0) 10) (data ex_quantized ! 0)
         (data (addNoise ex_quantized 10 ex_rnd) ! 0)
   \<and> data (addNoise ex_quantized 10 ex_rnd) ! 0 = (255, 5, 5, 255)
   \<and> length (data (addNoise ex_quantized 10 ex_rnd)) = 4"
proof -
  have h1: "(0::real) \<le> 10" by simp
  have h2: "\<forall>k. 0 \<le> ex_rnd k \<and> ex_rnd k < 1" by (simp add: ex_rnd_def)
  have h3: "byte_pixels (data ex_quantized)" by (simp add: byte_pixels_def ex_quantized_def)
  have k: "0 < length (data ex_quantized)" by (simp add: ex_quantized_def)
  have n: "noise_of (ex_rnd 0) 10 = 5" by (simp add: noise_of_def ex_rnd_def)
  have v: "data (addNoise ex_quantized 10 ex_rnd) ! 0 = (255, 5, 5, 255)"
    by (simp add: addNoise_def ex_quantized_def ex_rnd_def noise_of_def noise_pixel_def
        store_rgb_def clamp_def toUint8Clamp_def)
  have l: "length (data ex_quantized) = 4" by (simp add: ex_quantized_def)
  note t = addNoise_single_value_per_pixel [OF h1 h2 h3]
  from t k have s: "noise_stored (noise_of (ex_rnd 0) 10) (data ex_quantized ! 0)
      (data (addNoise ex_quantized 10 ex_rnd) ! 0)"
    by blast
  from t l have l': "length (data (addNoise ex_quantized 10 ex_rnd)) = 4" by simp
  show ?thesis
    using h1 h2 h3 n v s l' by simp
qed

section \<open>Error diffusion: Floyd-Steinberg and Atkinson\<close>


































section \<open>Palettes of fewer than two colours\<close>









section \<open>Posterization with a palette\<close>

lemma posterize_mode_palette_irrelevant:
  assumes "mode \<noteq> ''luminance''"
  shows "posterize_mode d levels mode palette = posterize_mode d levels mode None"
  using assms by (simp add: posterize_mode_def)

lemma posterize_mode_luminance_skipped:
  "posterize_mode d levels ''luminance'' (Some palette) = d"
  by (simp add: posterize_mode_def)

lemma posterize_palette_pixel_entry:
  assumes "palette \<noteq> []" "valid_palette palette"
  shows "palette_entry_for palette p (posterize_palette_pixel (sortPaletteByLuminance palette) p)"
proof -
  obtain r g b a where p: "p = (r, g, b, a)" by (cases p)
  let ?sp = "sortPaletteByLuminance palette"
  let ?idx = "getPaletteIndexByLuminance (of_int (getLuminance r g b)) (length ?sp)"
  have n: "0 < length ?sp" using assms(1) by (simp add: sortPaletteByLuminance_length)
  from getPaletteIndexByLuminance_range [OF n, of "of_int (getLuminance r g b)"]
  have rng: "0 \<le> ?idx" "?idx < int (length palette)"
    by (simp_all add: sortPaletteByLuminance_length)
  then have lt: "nat ?idx < length ?sp" by (simp add: sortPaletteByLuminance_length)
  then have mem: "?sp ! nat ?idx \<in> set palette"
    using nth_mem [OF lt] by (simp add: sortPaletteByLuminance_set)
  obtain nr ng nb where c: "?sp ! nat ?idx = (nr, ng, nb)" by (cases "?sp ! nat ?idx")
  have st: "rgb_of (store_rgb p (of_int nr) (of_int ng) (of_int nb)) = (nr, ng, nb)"
    using store_rgb_palette [OF assms(2), of nr ng nb p] mem c by simp
  have idx: "?idx = max 0 (min (int (length palette) - 1)
                     (js_round (of_int (getLuminance r g b) / 255 * (real (length palette) - 1))))"
    by (simp add: getPaletteIndexByLuminance_def Let_def sortPaletteByLuminance_length)
  have out: "posterize_palette_pixel ?sp p = store_rgb p (of_int nr) (of_int ng) (of_int nb)"
    using c by (simp add: posterize_palette_pixel_def p Let_def)
  have alpha: "snd (snd (snd (store_rgb p (of_int nr) (of_int ng) (of_int nb)))) = a"
    by (simp add: store_rgb_def p)
  show ?thesis
    unfolding palette_entry_for_def p prod.case Let_def idx [symmetric] out [unfolded p]
    using rng st mem c alpha by (simp add: p)
qed

text \<open>
  C5, as the code has it. With a non-empty palette: in the modes \<open>per-channel\<close> and
  \<open>artistic\<close> the mode's own pass runs first and the palette pass then remaps its result;
  in the mode \<open>luminance\<close> the mode's pass is skipped (its guard asks for no palette) and
  the palette pass remaps the input pixels. The palette pass gives each pixel the entry of
  the luminance-sorted palette at the index \<open>round(luminance / 255 * (n - 1))\<close> clamped to
  [0, n - 1], computed from the luminance of the pixel it reads, and keeps alpha.
\<close>

theorem posterize_palette_pass_after_mode:
  assumes "palette \<noteq> []" "valid_palette palette"
  shows "(mode = ''per-channel'' \<or> mode = ''artistic'' \<longrightarrow>
            posterize img levels mode (Some palette) =
              posterize_mode_then_palette img levels mode palette)
       \<and> posterize img levels ''luminance'' (Some palette) =
            img\<lparr>data := map (posterize_palette_pixel (sortPaletteByLuminance palette)) (data img)\<rparr>
       \<and> data (posterize_mode_then_palette img levels mode palette) =
            map (posterize_palette_pixel (sortPaletteByLuminance palette))
              (posterize_mode (data img) levels mode None)
       \<and> (\<forall>p. palette_entry_for palette p
                 (posterize_palette_pixel (sortPaletteByLuminance palette) p))"
proof -
  have n: "length palette > 0" using assms(1) by simp
  have a: "mode = ''per-channel'' \<or> mode = ''artistic'' \<longrightarrow>
            posterize img levels mode (Some palette) =
              posterize_mode_then_palette img levels mode palette"
  proof
    assume "mode = ''per-channel'' \<or> mode = ''artistic''"
    then have "mode \<noteq> ''luminance''" by auto
    then show "posterize img levels mode (Some palette) =
              posterize_mode_then_palette img levels mode palette"
      using posterize_mode_palette_irrelevant [of mode "data img" levels "Some palette"]
      by (simp add: posterize_def posterize_mode_then_palette_def)
  qed
  have b: "posterize img levels ''luminance'' (Some palette) =
            img\<lparr>data := map (posterize_palette_pixel (sortPaletteByLuminance palette)) (data img)\<rparr>"
    using n by (simp add: posterize_def posterize_mode_luminance_skipped posterize_palette_pass_def)
  have c: "data (posterize_mode_then_palette img levels mode palette) =
            map (posterize_palette_pixel (sortPaletteByLuminance palette))
              (posterize_mode (data img) levels mode None)"
    using n by (simp add: posterize_mode_then_palette_def posterize_palette_pass_def)
  show ?thesis by (intro conjI allI a b c posterize_palette_pixel_entry [OF assms])
qed

theorem posterize_palette_pass_after_mode_witness:
  "three_grays \<noteq> [] \<and> valid_palette three_grays
   \<and> posterize ex_pixel 2 ''per-channel'' (Some three_grays) =
       posterize_mode_then_palette ex_pixel 2 ''per-channel'' three_grays
   \<and> posterize ex_pixel 2 ''luminance'' (Some three_grays) =
       ex_pixel\<lparr>data := map (posterize_palette_pixel (sortPaletteByLuminance three_grays))
                          (data ex_pixel)\<rparr>
   \<and> palette_entry_for three_grays (100, 100, 100, 255)
       (posterize_palette_pixel (sortPaletteByLuminance three_grays) (100, 100, 100, 255))
   \<and> posterize ex_pixel 2 ''per-channel'' (Some three_grays) =
       \<lparr>width = 1, height = 1, data = [(0, 0, 0, 255)]\<rparr>"
proof -
  have h1: "three_grays \<noteq> []" by (simp add: three_grays_def)
  have h2: "valid_palette three_grays" by (simp add: three_grays_def valid_palette_def)
  note t = posterize_palette_pass_after_mode [OF h1 h2, of "''per-channel''" ex_pixel 2]
  have a: "posterize ex_pixel 2 ''per-channel'' (Some three_grays) =
       posterize_mode_then_palette ex_pixel 2 ''per-channel'' three_grays"
    by (rule t [THEN conjunct1, THEN mp]) (rule disjI1, rule refl)
  have b: "posterize ex_pixel 2 ''luminance'' (Some three_grays) =
       ex_pixel\<lparr>data := map (posterize_palette_pixel (sortPaletteByLuminance three_grays))
                          (data ex_pixel)\<rparr>"
    by (rule t [THEN conjunct2, THEN conjunct1])
  have c: "palette_entry_for three_grays (100, 100, 100, 255)
       (posterize_palette_pixel (sortPaletteByLuminance three_grays) (100, 100, 100, 255))"
    by (rule t [THEN conjunct2, THEN conjunct2, THEN conjunct2, THEN spec])
  have ev: "posterize ex_pixel 2 ''per-channel'' (Some three_grays) =
       \<lparr>width = 1, height = 1, data = [(0, 0, 0, 255)]\<rparr>"
    by code_simp
  show ?thesis by (intro conjI h1 h2 a b c ev)
qed

lemma posterize_luminance_palette_eval:
  "posterize ex_pixel 2 ''luminance'' (Some three_grays) =
       \<lparr>width = 1, height = 1, data = [(128, 128, 128, 255)]\<rparr>"
  by code_simp

lemma posterize_luminance_eval:
  "posterize ex_pixel 2 ''luminance'' None =
       \<lparr>width = 1, height = 1, data = [(0, 0, 0, 255)]\<rparr>"
  by code_simp

lemma posterize_mode_then_palette_eval:
  "posterize_mode_then_palette ex_pixel 2 ''luminance'' three_grays =
       \<lparr>width = 1, height = 1, data = [(0, 0, 0, 255)]\<rparr>"
  by code_simp

text \<open>
  C5, as the claim words it, fails in the mode \<open>luminance\<close>. With two levels the
  luminance pass would turn the gray 100 into black, which the palette pass maps to the
  darkest entry; the code skips the luminance pass when a palette is given, and maps the
  gray 100 itself, to the middle entry of [black, gray 128, white].
\<close>

theorem posterize_luminance_with_palette_counterexample:
  "posterize ex_pixel 2 ''luminance'' (Some three_grays) =
       \<lparr>width = 1, height = 1, data = [(128, 128, 128, 255)]\<rparr>
   \<and> posterize ex_pixel 2 ''luminance'' None =
       \<lparr>width = 1, height = 1, data = [(0, 0, 0, 255)]\<rparr>
   \<and> posterize_mode_then_palette ex_pixel 2 ''luminance'' three_grays =
       \<lparr>width = 1, height = 1, data = [(0, 0, 0, 255)]\<rparr>
   \<and> posterize ex_pixel 2 ''luminance'' (Some three_grays) \<noteq>
       posterize_mode_then_palette ex_pixel 2 ''luminance'' three_grays"
  unfolding posterize_luminance_palette_eval posterize_luminance_eval
    posterize_mode_then_palette_eval
  by simp

section \<open>The strength blend of the pipeline\<close>













end
